theory Spec2Isabelle
  imports Main "HOL-Library.List_Lexorder" "HOL-Library.Char_ord" "HOL-Library.Sublist"
    "HOL-Library.Word"
begin

section \<open>Strings\<close>

text \<open>
  Column names, labels and categorical values are Python \<open>str\<close> values, modelled as
  \<open>string\<close> (ASCII text). Python compares and sorts strings by code point, which on such
  text is the lexicographic order on character lists given by the imported orderings.
\<close>

text \<open>\<open>s.replace(old, new)\<close> for a one-character \<open>old\<close>, the only form the script uses.\<close>

definition replace :: "char \<Rightarrow> string \<Rightarrow> string \<Rightarrow> string" where
  "replace old new s = concat (map (\<lambda>c. if c = old then new else [c]) s)"

text \<open>\<open>s.startswith(p)\<close>.\<close>

definition startswith :: "string \<Rightarrow> string \<Rightarrow> bool" where
  "startswith s p = (take (length p) s = p)"

text \<open>Line 55: \<open>col.replace('(', '').replace(')', '').replace(' ', '_')\<close>.\<close>

definition clean :: "string \<Rightarrow> string" where
  "clean col = replace (CHR '' '') ''_'' (replace (CHR '')'') '''' (replace (CHR ''('') '''' col))"

section \<open>The date-range pattern\<close>

text \<open>
  The pattern of lines 59-60 is \<^verbatim>\<open>\d{1,2}_[A-Za-z]{3}-\d{1,2}_[A-Za-z]{3}\<close>. A matcher maps
  the text at the current position to the list of its possible matches, each with the text
  left over, in the order in which a backtracking engine tries them; the greedy
  \<^verbatim>\<open>\d{1,2}\<close> therefore offers two digits before one. On ASCII text \<^verbatim>\<open>\d\<close> is
  \<open>0\<close> to \<open>9\<close>.
\<close>

type_synonym matcher = "string \<Rightarrow> (string \<times> string) list"

definition is_digit :: "char \<Rightarrow> bool" where
  "is_digit c = (c \<in> set ''0123456789'')"

definition is_alpha :: "char \<Rightarrow> bool" where
  "is_alpha c = (c \<in> set ''ABCDEFGHIJKLMNOPQRSTUVWXYZabcdefghijklmnopqrstuvwxyz'')"

fun char_class :: "(char \<Rightarrow> bool) \<Rightarrow> matcher" where
  "char_class P [] = []"
| "char_class P (c # s) = (if P c then [([c], s)] else [])"

definition then_re :: "matcher \<Rightarrow> matcher \<Rightarrow> matcher" where
  "then_re p q s = concat (map (\<lambda>(m, r). map (\<lambda>(m', r'). (m @ m', r')) (q r)) (p s))"

definition digit_1_2 :: matcher where
  "digit_1_2 s = then_re (char_class is_digit) (char_class is_digit) s @ char_class is_digit s"

definition alpha_3 :: matcher where
  "alpha_3 = then_re (char_class is_alpha) (then_re (char_class is_alpha) (char_class is_alpha))"

definition day_month :: matcher where
  "day_month = then_re digit_1_2 (then_re (char_class (\<lambda>c. c = CHR ''_'')) alpha_3)"

definition date_range_re :: matcher where
  "date_range_re = then_re day_month (then_re (char_class (\<lambda>c. c = CHR ''-'')) day_month)"

text \<open>The match that starts at the current position, if any: the first one tried.\<close>

definition re_match :: "string \<Rightarrow> string option" where
  "re_match s = (case date_range_re s of [] \<Rightarrow> None | (m, r) # _ \<Rightarrow> Some m)"

text \<open>\<open>re.search(pattern, col)\<close>: the match at the leftmost position that has one;
  \<open>None\<close> when there is none. The result is what \<open>.group()\<close> returns.\<close>

fun re_search :: "string \<Rightarrow> string option" where
  "re_search [] = re_match []"
| "re_search (c # s) = (case re_match (c # s) of Some m \<Rightarrow> Some m | None \<Rightarrow> re_search s)"

text \<open>The whole of \<open>t\<close> is one match of the pattern.\<close>

definition is_date_range :: "string \<Rightarrow> bool" where
  "is_date_range t = ((t, []) \<in> set (date_range_re t))"

section \<open>The table\<close>

text \<open>
  The spreadsheet has three categorical columns holding strings and count columns holding
  integers, where a blank cell is read as a missing value (\<open>None\<close>). pandas gives a count
  column without blank cells the machine type \<open>int64\<close> and one with a blank cell the type
  \<open>float64\<close>; selecting rows keeps the type of a column. A row carries its three
  categorical values as fields and, in \<open>cells\<close>, one numeric cell per column of the header,
  by position; \<open>dtypes\<close> gives the machine type of the column at each position. The
  positions of the categorical columns are never read through \<open>cells\<close> or \<open>dtypes\<close>.
  A row shorter than the header is blank in the columns it lacks.
\<close>

type_synonym int64 = "64 word"

datatype dtype = Int64 | Float64

record row =
  UC :: string
  Epi_Mis_Facility_Name :: string
  VaccinatorName :: string
  cells :: "int64 option list"

record dataframe =
  columns :: "string list"
  dtypes :: "nat \<Rightarrow> dtype"
  rows :: "row list"

text \<open>
  The exceptions of a run: \<open>KeyError\<close> for a name that is not a column or not a key,
  \<open>AttributeError\<close> and \<open>TypeError\<close> for the two uses of a duplicated column name (see
  below), and the error of \<open>st.columns\<close> for a number of columns that is not positive.
\<close>

datatype error = KeyError string | AttributeError string | TypeError string
  | StreamlitAPIException

text \<open>What the page shows through \<open>st.error\<close> and \<open>st.warning\<close>.\<close>

datatype signal = Error string | Warning string

section \<open>Loader\<close>

text \<open>The three ways \<open>pd.read_excel("progress_data.xlsx")\<close> can end; an exception other
  than \<open>FileNotFoundError\<close> carries its text \<open>str(e)\<close>.\<close>

datatype read_excel = FileNotFoundError | Exception string | Sheet dataframe

text \<open>Lines 42-50. \<open>st.error(msg); st.stop()\<close> is the result \<open>Inl (Error msg)\<close>.\<close>

definition load_data :: "read_excel \<Rightarrow> signal + dataframe" where
  "load_data file =
     (case file of
        Sheet df \<Rightarrow> Inr df
      | FileNotFoundError \<Rightarrow>
          Inl (Error ''File 'progress_data.xlsx' not found. Ensure it is in the script's directory.'')
      | Exception e \<Rightarrow> Inl (Error (''Error loading 'progress_data.xlsx': '' @ e)))"

text \<open>Line 55: the header is replaced by the cleaned names; the cells stay in place.\<close>

definition clean_columns :: "dataframe \<Rightarrow> dataframe" where
  "clean_columns df = df\<lparr>columns := map clean (columns df)\<rparr>"

section \<open>Schema Indexer\<close>

text \<open>Lines 58-61.\<close>

definition date_columns :: "string list \<Rightarrow> string list" where
  "date_columns cols = filter (\<lambda>col. startswith col ''Reg'' \<or> startswith col ''Vac'') cols"

definition date_ranges :: "string list \<Rightarrow> string list" where
  "date_ranges cols = sort (remdups (List.map_filter re_search (date_columns cols)))"

definition date_to_columns :: "string list \<Rightarrow> (string \<rightharpoonup> string \<times> string)" where
  "date_to_columns drs = map_of (map (\<lambda>dr. (dr, (''Reg'' @ dr, ''Vac'' @ dr))) drs)"

section \<open>Sidebar\<close>

text \<open>The values the four widgets return (lines 69, 72, 75 and 77). A select box returns
  one of the options it was given; the record allows any strings, so that the Filter
  Engine is stated for every combination of selections.\<close>

record selection =
  selected_uc :: string
  selected_facility :: string
  selected_vaccinator :: string
  dates :: "string list"

text \<open>\<open>Series.unique()\<close>: the distinct values, each at its first occurrence.\<close>

definition unique :: "'a list \<Rightarrow> 'a list" where
  "unique xs = rev (remdups (rev xs))"

text \<open>Lines 68, 71 and 74: the candidate lists offered after \<open>"All"\<close>.\<close>

definition ucs :: "dataframe \<Rightarrow> string list" where
  "ucs df = sort (unique (map UC (rows df)))"

definition facilities :: "dataframe \<Rightarrow> string \<Rightarrow> string list" where
  "facilities df uc =
     (if uc = ''All'' then sort (unique (map Epi_Mis_Facility_Name (rows df)))
      else sort (unique (map Epi_Mis_Facility_Name (filter (\<lambda>r. UC r = uc) (rows df)))))"

definition vaccinators :: "dataframe \<Rightarrow> string \<Rightarrow> string \<Rightarrow> string list" where
  "vaccinators df uc facility =
     (if uc = ''All'' \<and> facility = ''All'' then sort (unique (map VaccinatorName (rows df)))
      else sort (unique (map VaccinatorName
             (filter (\<lambda>r. UC r = uc \<and> Epi_Mis_Facility_Name r = facility) (rows df)))))"

text \<open>Lines 78-80: the date ranges used from here on, and the warning shown if any.\<close>

definition selected_date_ranges :: "string list \<Rightarrow> string list \<Rightarrow> string list \<times> signal list" where
  "selected_date_ranges drs picked =
     (if picked = [] then (drs, [Warning ''No date ranges selected. Showing all.''])
      else (picked, []))"

section \<open>Filter Engine\<close>

text \<open>Lines 83-89: three successive row selections, each skipped for \<open>"All"\<close>.\<close>

definition filtered_df :: "dataframe \<Rightarrow> selection \<Rightarrow> dataframe" where
  "filtered_df df sel =
     (let f0 = df;
          f1 = (if selected_uc sel \<noteq> ''All''
                then f0\<lparr>rows := filter (\<lambda>r. UC r = selected_uc sel) (rows f0)\<rparr> else f0);
          f2 = (if selected_facility sel \<noteq> ''All''
                then f1\<lparr>rows := filter (\<lambda>r. Epi_Mis_Facility_Name r = selected_facility sel) (rows f1)\<rparr>
                else f1);
          f3 = (if selected_vaccinator sel \<noteq> ''All''
                then f2\<lparr>rows := filter (\<lambda>r. VaccinatorName r = selected_vaccinator sel) (rows f2)\<rparr>
                else f2)
      in f3)"

section \<open>Aggregator\<close>

text \<open>
  \<open>df[c]\<close> raises \<open>KeyError\<close> when no column is named \<open>c\<close>. Otherwise it is the columns
  named \<open>c\<close>, each with its machine type and its cells: a series when there is one, a
  frame when there are several.
\<close>

definition cell_at :: "row \<Rightarrow> nat \<Rightarrow> int64 option" where
  "cell_at r i = (if i < length (cells r) then cells r ! i else None)"

definition getitem :: "dataframe \<Rightarrow> string \<Rightarrow> error + (dtype \<times> int64 option list) list" where
  "getitem df c =
     (case filter (\<lambda>i. columns df ! i = c) [0..<length (columns df)] of
        [] \<Rightarrow> Inl (KeyError c)
      | ps \<Rightarrow> Inr (map (\<lambda>i. (dtypes df i, map (\<lambda>r. cell_at r i) (rows df))) ps))"

text \<open>
  The result of \<open>Series.sum()\<close>, which skips missing values. An \<open>int64\<close> series is added
  in 64-bit two's complement and wraps around. A \<open>float64\<close> series is added in floating
  point: while the absolute values of the cells add up to at most \<open>2^53\<close> every
  intermediate sum is an integer that floating point holds exactly, and the result is the
  exact sum; beyond that the result is a rounded number, which this model does not
  determine (\<open>FloatRounded\<close>).
\<close>

datatype total = IntTotal int64 | FloatTotal int | FloatRounded

fun series_sum :: "dtype \<Rightarrow> int64 option list \<Rightarrow> total" where
  "series_sum Int64 xs = IntTotal (sum_list (map (\<lambda>x. case x of None \<Rightarrow> 0 | Some v \<Rightarrow> v) xs))"
| "series_sum Float64 xs =
     (if (\<Sum>x\<leftarrow>xs. case x of None \<Rightarrow> 0 | Some v \<Rightarrow> \<bar>sint v\<bar>) \<le> 2 ^ 53
      then FloatTotal (\<Sum>x\<leftarrow>xs. case x of None \<Rightarrow> 0 | Some v \<Rightarrow> sint v)
      else FloatRounded)"

text \<open>\<open>df[c].sum()\<close>: one total for a series, one per column for a frame.\<close>

definition column_sum :: "dataframe \<Rightarrow> string \<Rightarrow> error + total list" where
  "column_sum df c =
     (case getitem df c of
        Inl e \<Rightarrow> Inl e
      | Inr frame \<Rightarrow> Inr (map (\<lambda>(t, xs). series_sum t xs) frame))"

text \<open>
  Lines 98-104: one \<open>(date_range, reg_total, vac_total)\<close> per selected date range, in the
  order of the selection; the first exception ends the loop. Both columns are looked up
  and summed (lines 100 and 101) before the number format \<open>{reg_total:,}\<close>,
  \<open>{vac_total:,}\<close> of line 104, which raises \<open>TypeError\<close> on the sums of a frame.
\<close>

fun summary :: "dataframe \<Rightarrow> (string \<rightharpoonup> string \<times> string) \<Rightarrow> string list
                  \<Rightarrow> error + (string \<times> total \<times> total) list" where
  "summary fdf d2c [] = Inr []"
| "summary fdf d2c (date_range # rest) =
     (case d2c date_range of
        None \<Rightarrow> Inl (KeyError date_range)
      | Some (reg_col, vac_col) \<Rightarrow>
          (case column_sum fdf reg_col of
             Inl e \<Rightarrow> Inl e
           | Inr reg_sums \<Rightarrow>
               (case column_sum fdf vac_col of
                  Inl e \<Rightarrow> Inl e
                | Inr vac_sums \<Rightarrow>
                    (case reg_sums of
                       [reg_total] \<Rightarrow>
                         (case vac_sums of
                            [vac_total] \<Rightarrow>
                              (case summary fdf d2c rest of
                                 Inl e \<Rightarrow> Inl e
                               | Inr totals \<Rightarrow> Inr ((date_range, reg_total, vac_total) # totals))
                          | _ \<Rightarrow> Inl (TypeError vac_col))
                     | _ \<Rightarrow> Inl (TypeError reg_col)))))"

section \<open>Display names\<close>

text \<open>Lines 109-114: the loop that fills \<open>rename_dict\<close>, a later assignment replacing an
  earlier one.\<close>

fun rename_dict :: "(string \<rightharpoonup> string \<times> string) \<Rightarrow> (string \<rightharpoonup> string) \<Rightarrow> string list
                      \<Rightarrow> error + (string \<rightharpoonup> string)" where
  "rename_dict d2c acc [] = Inr acc"
| "rename_dict d2c acc (date_range # rest) =
     (case d2c date_range of
        None \<Rightarrow> Inl (KeyError date_range)
      | Some (reg_col, vac_col) \<Rightarrow>
          rename_dict d2c
            (acc(reg_col \<mapsto> ''Reg ('' @ replace (CHR ''_'') '' '' date_range @ '')'',
                 vac_col \<mapsto> ''Vac ('' @ replace (CHR ''_'') '' '' date_range @ '')''))
            rest)"

section \<open>The run of the script\<close>

text \<open>
  A run shows signals and ends in one of three ways: \<open>st.stop()\<close>, an exception that
  nothing catches, or the summary handed to the page. Of Streamlit's layout only the
  call \<open>st.columns(len(selected_date_ranges))\<close> of line 97 is modelled, which raises when
  the list is empty; the widgets, the table and the chart are not.

  Lines 68, 71 and 74 read the three categorical columns by name before anything else is
  shown and call \<open>.unique()\<close> on them: \<open>KeyError\<close> when the column is missing,
  \<open>AttributeError\<close> when the name is duplicated and \<open>df[c]\<close> is a frame. Once they are
  known to be there the header is not empty, so \<open>filtered_df.empty\<close> in line 91 says that
  no row is left.
\<close>

datatype ending = Stop | Raise error | Summary "(string \<times> total \<times> total) list"

definition column_error :: "string list \<Rightarrow> string \<Rightarrow> error option" where
  "column_error cols c =
     (case filter (\<lambda>x. x = c) cols of
        [] \<Rightarrow> Some (KeyError c)
      | [x] \<Rightarrow> None
      | _ \<Rightarrow> Some (AttributeError c))"

definition categorical_errors :: "string list \<Rightarrow> error list" where
  "categorical_errors cols =
     List.map_filter (column_error cols) [''UC'', ''Epi_Mis_Facility_Name'', ''VaccinatorName'']"

definition app :: "read_excel \<Rightarrow> selection \<Rightarrow> signal list \<times> ending" where
  "app file sel =
     (case load_data file of
        Inl msg \<Rightarrow> ([msg], Stop)
      | Inr df0 \<Rightarrow>
          (let df = clean_columns df0;
               drs = date_ranges (columns df);
               d2c = date_to_columns drs
           in case categorical_errors (columns df) of
                e # _ \<Rightarrow> ([], Raise e)
              | [] \<Rightarrow>
                  (let (chosen, warnings) = selected_date_ranges drs (dates sel);
                       fdf = filtered_df df sel
                   in if rows fdf = []
                      then (warnings @ [Warning ''No data for selected filters.''], Stop)
                      else if chosen = []
                      then (warnings, Raise StreamlitAPIException)
                      else (case summary fdf d2c chosen of
                              Inl e \<Rightarrow> (warnings, Raise e)
                            | Inr totals \<Rightarrow> (warnings, Summary totals)))))"

section \<open>The specification's reading of the operations\<close>

text \<open>
  The candidate list as the specification words it: the sorted distinct vaccinator values
  of the rows that match the unit constraint and the facility constraint, each of which
  matches every row when it is \<open>"All"\<close>.
\<close>

definition spec_vaccinators :: "dataframe \<Rightarrow> string \<Rightarrow> string \<Rightarrow> string list" where
  "spec_vaccinators df uc facility =
     sort (unique (map VaccinatorName
       (filter (\<lambda>r. (uc = ''All'' \<or> UC r = uc) \<and> (facility = ''All'' \<or> Epi_Mis_Facility_Name r = facility))
          (rows df))))"

text \<open>A row passes the Filter Engine when it meets every constraint that is not \<open>"All"\<close>.\<close>

definition matches :: "selection \<Rightarrow> row \<Rightarrow> bool" where
  "matches sel r =
     ((selected_uc sel = ''All'' \<or> UC r = selected_uc sel) \<and>
      (selected_facility sel = ''All'' \<or> Epi_Mis_Facility_Name r = selected_facility sel) \<and>
      (selected_vaccinator sel = ''All'' \<or> VaccinatorName r = selected_vaccinator sel))"

text \<open>The count a row holds in the column at position \<open>i\<close>, a blank cell counting as
  zero.\<close>

definition count_of :: "row \<Rightarrow> nat \<Rightarrow> int" where
  "count_of r i = (case cell_at r i of None \<Rightarrow> 0 | Some v \<Rightarrow> sint v)"

text \<open>The number a total stands for, when the model determines it.\<close>

fun value_of :: "total \<Rightarrow> int option" where
  "value_of (IntTotal w) = Some (sint w)"
| "value_of (FloatTotal n) = Some n"
| "value_of FloatRounded = None"

section \<open>Sample sheets\<close>

text \<open>
  A sheet as it comes from the file: one date range, written \<open>Reg(1 Jan-7 Jan)\<close> and
  \<open>Vac(1 Jan-7 Jan)\<close>, and three rows, the third with a blank registration cell and the
  unit \<open>All\<close>. The registration column, at position 3, has a blank cell and is
  \<open>float64\<close>; the vaccination column is \<open>int64\<close>.
\<close>

definition example_df :: dataframe where
  "example_df =
     \<lparr>columns = [''UC'', ''Epi Mis Facility Name'', ''VaccinatorName'',
                 ''Reg(1 Jan-7 Jan)'', ''Vac(1 Jan-7 Jan)''],
      dtypes = (\<lambda>i. if i = 3 then Float64 else Int64),
      rows = [\<lparr>UC = ''UC1'', Epi_Mis_Facility_Name = ''F1'', VaccinatorName = ''V1'',
               cells = [None, None, None, Some 10, Some 8]\<rparr>,
              \<lparr>UC = ''UC2'', Epi_Mis_Facility_Name = ''F2'', VaccinatorName = ''V2'',
               cells = [None, None, None, Some 5, Some 4]\<rparr>,
              \<lparr>UC = ''All'', Epi_Mis_Facility_Name = ''F1'', VaccinatorName = ''V3'',
               cells = [None, None, None, None, Some 1]\<rparr>]\<rparr>"

definition example_sel :: selection where
  "example_sel = \<lparr>selected_uc = ''All'', selected_facility = ''All'',
                   selected_vaccinator = ''All'', dates = []\<rparr>"

text \<open>A normalized table that has a registration column for \<open>1_Jan-7_Jan\<close> and no
  vaccination column for it.\<close>

definition reg_only_df :: dataframe where
  "reg_only_df =
     \<lparr>columns = [''UC'', ''Epi_Mis_Facility_Name'', ''VaccinatorName'', ''Reg1_Jan-7_Jan''],
      dtypes = (\<lambda>i. Int64),
      rows = [\<lparr>UC = ''UC1'', Epi_Mis_Facility_Name = ''F1'', VaccinatorName = ''V1'',
               cells = [None, None, None, Some 10]\<rparr>]\<rparr>"

text \<open>A normalized table with both columns of \<open>1_Jan-7_Jan\<close> and no blank cell, whose two
  registration counts are \<open>2^62\<close> each.\<close>

definition big_df :: dataframe where
  "big_df =
     \<lparr>columns = [''UC'', ''Epi_Mis_Facility_Name'', ''VaccinatorName'',
                 ''Reg1_Jan-7_Jan'', ''Vac1_Jan-7_Jan''],
      dtypes = (\<lambda>i. Int64),
      rows = [\<lparr>UC = ''UC1'', Epi_Mis_Facility_Name = ''F1'', VaccinatorName = ''V1'',
               cells = [None, None, None, Some 4611686018427387904, Some 1]\<rparr>,
              \<lparr>UC = ''UC1'', Epi_Mis_Facility_Name = ''F1'', VaccinatorName = ''V2'',
               cells = [None, None, None, Some 4611686018427387904, Some 1]\<rparr>]\<rparr>"



section \<open>Filter Engine: properties\<close>

lemma rows_filtered_df: "rows (filtered_df df sel) = filter (matches sel) (rows df)"
  by (auto simp: filtered_df_def matches_def Let_def intro: filter_cong)

lemma columns_filtered_df: "columns (filtered_df df sel) = columns df"
  by (simp add: filtered_df_def Let_def)

lemma app_no_data:
  assumes "categorical_errors (map clean (columns df)) = []"
    and "filter (matches sel) (rows df) = []"
  shows "app (Sheet df) sel =
           (snd (selected_date_ranges (date_ranges (map clean (columns df))) (dates sel))
              @ [Warning ''No data for selected filters.''], Stop)"
  using assms
  by (simp add: app_def load_data_def clean_columns_def rows_filtered_df Let_def
        split: prod.splits)

lemma example_categorical_ok: "categorical_errors (map clean (columns example_df)) = []"
  by (simp add: categorical_errors_def column_error_def example_df_def clean_def replace_def
        List.map_filter_def)

text \<open>
  C3. The Filter Engine returns exactly the rows that satisfy every constraint that is not
  \<open>"All"\<close>, in their original order and with the header unchanged; a constraint left at
  \<open>"All"\<close> matches every row. When no row is left the run shows the warning
  "No data for selected filters." and stops: it ends in \<open>Stop\<close>, not in an exception.
\<close>

theorem filter_engine_contract:
  "rows (filtered_df df sel) = filter (matches sel) (rows df)
   \<and> columns (filtered_df df sel) = columns df
   \<and> subseq (rows (filtered_df df sel)) (rows df)
   \<and> (categorical_errors (map clean (columns df)) = [] \<and> rows (filtered_df df sel) = [] \<longrightarrow>
        snd (app (Sheet df) sel) = Stop
        \<and> last (fst (app (Sheet df) sel)) = Warning ''No data for selected filters.'')"
  by (simp add: rows_filtered_df columns_filtered_df app_no_data)

theorem filter_engine_contract_witness:
  "categorical_errors (map clean (columns example_df)) = []
   \<and> rows (filtered_df example_df (example_sel\<lparr>selected_uc := ''UC9''\<rparr>)) = []
   \<and> snd (app (Sheet example_df) (example_sel\<lparr>selected_uc := ''UC9''\<rparr>)) = Stop
   \<and> rows (filtered_df example_df (example_sel\<lparr>selected_facility := ''F1''\<rparr>))
       = [rows example_df ! 0, rows example_df ! 2]"
proof -
  have 2: "rows (filtered_df example_df (example_sel\<lparr>selected_uc := ''UC9''\<rparr>)) = []"
    by (simp add: filtered_df_def example_df_def example_sel_def)
  have 3: "filter (matches (example_sel\<lparr>selected_facility := ''F1''\<rparr>)) (rows example_df)
       = [rows example_df ! 0, rows example_df ! 2]"
    by (simp add: matches_def example_df_def example_sel_def)
  show ?thesis
    using filter_engine_contract [of example_df "example_sel\<lparr>selected_uc := ''UC9''\<rparr>"]
      filter_engine_contract [of example_df "example_sel\<lparr>selected_facility := ''F1''\<rparr>"]
      example_categorical_ok 2 3
    by simp
qed

lemma subseq_filter_matches:
  assumes "\<And>r. matches sel' r \<Longrightarrow> matches sel r"
  shows "subseq (filter (matches sel') xs) (filter (matches sel) xs)"
proof -
  have "filter (matches sel') xs = filter (matches sel') (filter (matches sel) xs)"
    using assms by (auto intro: filter_cong)
  then show ?thesis
    by (metis subseq_filter_left)
qed

text \<open>
  C6. Replacing one selection that is \<open>"All"\<close> by any value \<open>v\<close> never adds rows: the
  rows returned under the new selection are a subsequence of those returned under the old
  one, so there are no more of them. This holds for each of the three filters.
\<close>

theorem filter_monotone:
  "(selected_uc sel = ''All'' \<longrightarrow>
      subseq (rows (filtered_df df (sel\<lparr>selected_uc := v\<rparr>))) (rows (filtered_df df sel))
      \<and> length (rows (filtered_df df (sel\<lparr>selected_uc := v\<rparr>))) \<le> length (rows (filtered_df df sel)))
   \<and> (selected_facility sel = ''All'' \<longrightarrow>
      subseq (rows (filtered_df df (sel\<lparr>selected_facility := v\<rparr>))) (rows (filtered_df df sel))
      \<and> length (rows (filtered_df df (sel\<lparr>selected_facility := v\<rparr>))) \<le> length (rows (filtered_df df sel)))
   \<and> (selected_vaccinator sel = ''All'' \<longrightarrow>
      subseq (rows (filtered_df df (sel\<lparr>selected_vaccinator := v\<rparr>))) (rows (filtered_df df sel))
      \<and> length (rows (filtered_df df (sel\<lparr>selected_vaccinator := v\<rparr>))) \<le> length (rows (filtered_df df sel)))"
proof -
  have "subseq (rows (filtered_df df sel')) (rows (filtered_df df sel))
        \<and> length (rows (filtered_df df sel')) \<le> length (rows (filtered_df df sel))"
    if "\<And>r. matches sel' r \<Longrightarrow> matches sel r" for sel'
    using subseq_filter_matches [of sel' sel "rows df"] that
    by (auto simp: rows_filtered_df dest: list_emb_length)
  note mono = this
  show ?thesis
    by (intro conjI impI; rule mono [THEN conjunct1] mono [THEN conjunct2]; simp add: matches_def)
qed

theorem filter_monotone_witness:
  "selected_uc example_sel = ''All''
   \<and> rows (filtered_df example_df example_sel) = rows example_df
   \<and> rows (filtered_df example_df (example_sel\<lparr>selected_uc := ''UC1''\<rparr>)) = [rows example_df ! 0]
   \<and> subseq [rows example_df ! 0] (rows example_df)
   \<and> selected_facility example_sel = ''All'' \<and> selected_vaccinator example_sel = ''All''"
proof -
  have 1: "selected_uc example_sel = ''All''" "selected_facility example_sel = ''All''"
    "selected_vaccinator example_sel = ''All''"
    by (simp_all add: example_sel_def)
  have 2: "rows (filtered_df example_df example_sel) = rows example_df"
    by (simp add: filtered_df_def example_sel_def)
  have 3: "rows (filtered_df example_df (example_sel\<lparr>selected_uc := ''UC1''\<rparr>)) = [rows example_df ! 0]"
    by (simp add: filtered_df_def example_df_def example_sel_def)
  show ?thesis
    using filter_monotone [of example_sel example_df "''UC1''"] 1 2 3 by simp
qed

text \<open>
  C10, as the code has it. The value \<open>"All"\<close> is always read as "no constraint", also
  when a row holds it.
  With all three selections at \<open>"All"\<close> the table comes back whole, and a selection at
  \<open>"All"\<close> leaves only the other two constraints. No selection is an equality constraint
  against \<open>"All"\<close>: whenever a row that holds \<open>"All"\<close> in a column is returned, the selection
  for that column is the unconstrained one, and every row of the table that agrees with it
  in the other two columns is returned with it, so the filter on that column cannot
  separate the rows holding \<open>"All"\<close> from the others.
\<close>

theorem all_is_unconstrained:
  "(selected_uc sel = ''All'' \<and> selected_facility sel = ''All'' \<and> selected_vaccinator sel = ''All''
      \<longrightarrow> filtered_df df sel = df)
   \<and> (selected_uc sel = ''All'' \<longrightarrow>
        rows (filtered_df df sel) =
          filter (\<lambda>r. (selected_facility sel = ''All'' \<or> Epi_Mis_Facility_Name r = selected_facility sel)
                    \<and> (selected_vaccinator sel = ''All'' \<or> VaccinatorName r = selected_vaccinator sel))
            (rows df))
   \<and> (selected_facility sel = ''All'' \<longrightarrow>
        rows (filtered_df df sel) =
          filter (\<lambda>r. (selected_uc sel = ''All'' \<or> UC r = selected_uc sel)
                    \<and> (selected_vaccinator sel = ''All'' \<or> VaccinatorName r = selected_vaccinator sel))
            (rows df))
   \<and> (selected_vaccinator sel = ''All'' \<longrightarrow>
        rows (filtered_df df sel) =
          filter (\<lambda>r. (selected_uc sel = ''All'' \<or> UC r = selected_uc sel)
                    \<and> (selected_facility sel = ''All'' \<or> Epi_Mis_Facility_Name r = selected_facility sel))
            (rows df))
   \<and> (r \<in> set (rows (filtered_df df sel)) \<and> UC r = ''All'' \<longrightarrow> selected_uc sel = ''All'')
   \<and> (r \<in> set (rows (filtered_df df sel)) \<and> Epi_Mis_Facility_Name r = ''All''
        \<longrightarrow> selected_facility sel = ''All'')
   \<and> (r \<in> set (rows (filtered_df df sel)) \<and> VaccinatorName r = ''All''
        \<longrightarrow> selected_vaccinator sel = ''All'')
   \<and> (r \<in> set (rows (filtered_df df sel)) \<and> UC r = ''All'' \<and> r' \<in> set (rows df)
        \<and> Epi_Mis_Facility_Name r' = Epi_Mis_Facility_Name r \<and> VaccinatorName r' = VaccinatorName r
        \<longrightarrow> r' \<in> set (rows (filtered_df df sel)))
   \<and> (r \<in> set (rows (filtered_df df sel)) \<and> Epi_Mis_Facility_Name r = ''All'' \<and> r' \<in> set (rows df)
        \<and> UC r' = UC r \<and> VaccinatorName r' = VaccinatorName r
        \<longrightarrow> r' \<in> set (rows (filtered_df df sel)))
   \<and> (r \<in> set (rows (filtered_df df sel)) \<and> VaccinatorName r = ''All'' \<and> r' \<in> set (rows df)
        \<and> UC r' = UC r \<and> Epi_Mis_Facility_Name r' = Epi_Mis_Facility_Name r
        \<longrightarrow> r' \<in> set (rows (filtered_df df sel)))"
proof -
  have whole: "filtered_df df sel = df"
    if "selected_uc sel = ''All''" "selected_facility sel = ''All''" "selected_vaccinator sel = ''All''"
    using that by (simp add: filtered_df_def)
  show ?thesis
    unfolding rows_filtered_df
    by (intro conjI impI; (rule whole)?; (auto simp: matches_def intro: filter_cong)?)
qed

theorem all_is_unconstrained_witness:
  "rows example_df ! 2 \<in> set (rows (filtered_df example_df (example_sel\<lparr>selected_facility := ''F1''\<rparr>)))
   \<and> UC (rows example_df ! 2) = ''All''
   \<and> selected_uc (example_sel\<lparr>selected_facility := ''F1''\<rparr>) = ''All''
   \<and> selected_vaccinator (example_sel\<lparr>selected_facility := ''F1''\<rparr>) = ''All''
   \<and> rows (filtered_df example_df (example_sel\<lparr>selected_facility := ''F1''\<rparr>))
       = [rows example_df ! 0, rows example_df ! 2]
   \<and> filtered_df example_df example_sel = example_df"
proof -
  let ?sel = "example_sel\<lparr>selected_facility := ''F1''\<rparr>"
  have 1: "rows (filtered_df example_df ?sel) = [rows example_df ! 0, rows example_df ! 2]"
    by (simp add: filtered_df_def example_df_def example_sel_def)
  have 2: "UC (rows example_df ! 2) = ''All''"
    by (simp add: example_df_def)
  have 3: "selected_uc example_sel = ''All''" "selected_facility example_sel = ''All''"
    "selected_vaccinator example_sel = ''All''"
    by (simp_all add: example_sel_def)
  have mem: "rows example_df ! 2 \<in> set (rows (filtered_df example_df ?sel))"
    unfolding 1 by simp
  have uc: "selected_uc ?sel = ''All''"
    using all_is_unconstrained [of ?sel example_df "rows example_df ! 2" "rows example_df ! 2"]
      mem 2 by blast
  have whole: "filtered_df example_df example_sel = example_df"
    using all_is_unconstrained [of example_sel example_df "rows example_df ! 2" "rows example_df ! 2"]
      3 by blast
  have vac: "selected_vaccinator ?sel = ''All''"
    by (simp add: example_sel_def)
  from mem 2 uc vac 1 whole show ?thesis
    by (intro conjI)
qed

text \<open>
  C10 as stated fails in its last clause: on the sample sheet the selection of vaccinator
  \<open>V3\<close>, with the other two at \<open>"All"\<close>, returns exactly the rows whose unit is \<open>All\<close>.
  Rows holding \<open>"All"\<close> in one column can be isolated through the other two columns.
\<close>

theorem isolated_by_other_column_counterexample:
  "rows (filtered_df example_df (example_sel\<lparr>selected_vaccinator := ''V3''\<rparr>)) = [rows example_df ! 2]
   \<and> filter (\<lambda>r. UC r = ''All'') (rows example_df) = [rows example_df ! 2]"
  by (simp add: filtered_df_def example_df_def example_sel_def)

section \<open>Candidate lists\<close>

lemma vaccinators_agree:
  "(uc = ''All'' \<longleftrightarrow> facility = ''All'') \<Longrightarrow>
   vaccinators df uc facility = spec_vaccinators df uc facility"
  by (auto simp: vaccinators_def spec_vaccinators_def)

text \<open>
  C2. The vaccinator candidates are meant to be the sorted distinct vaccinators of the rows
  matching the unit and facility constraints, \<open>"All"\<close> matching every row. Line 74 does this
  only when both selections are \<open>"All"\<close> or both are values. With exactly one of them at
  \<open>"All"\<close> it compares that column with the text \<open>"All"\<close>: on the sample sheet, unit
  \<open>"All"\<close> with facility \<open>F2\<close> offers no vaccinator although \<open>V2\<close> works at \<open>F2\<close>, and
  unit \<open>UC1\<close> with facility \<open>"All"\<close> offers none although \<open>V1\<close> works in \<open>UC1\<close>.
\<close>

theorem vaccinators_mixed_selection:
  "vaccinators example_df ''All'' ''F2'' = []
   \<and> spec_vaccinators example_df ''All'' ''F2'' = [''V2'']
   \<and> vaccinators example_df ''UC1'' ''All'' = []
   \<and> spec_vaccinators example_df ''UC1'' ''All'' = [''V1'']"
  by (simp add: vaccinators_def spec_vaccinators_def example_df_def unique_def)

section \<open>The date-range pattern: properties\<close>

lemma set_then_re:
  "set (then_re p q s) = {(m @ m', r') | m r m' r'. (m, r) \<in> set (p s) \<and> (m', r') \<in> set (q r)}"
  by (auto simp: then_re_def) force

lemma char_class_iff:
  "(m, r) \<in> set (char_class P s) \<longleftrightarrow> (\<exists>c. P c \<and> m = [c] \<and> s = c # r)"
  by (cases s) auto

lemma not_digit_sep [simp]: "\<not> is_digit (CHR ''_'')" "\<not> is_digit (CHR ''-'')"
  by (simp_all add: is_digit_def)

lemma digit_not_sep: "is_digit y \<Longrightarrow> y \<noteq> CHR ''_''"
  by auto

lemma digit_1_2_iff:
  "(d, r) \<in> set (digit_1_2 s) \<longleftrightarrow>
     s = d @ r \<and> ((\<exists>x. d = [x] \<and> is_digit x) \<or> (\<exists>x y. d = [x, y] \<and> is_digit x \<and> is_digit y))"
  by (auto simp: digit_1_2_def set_then_re char_class_iff)

lemma alpha_3_iff:
  "(m, r) \<in> set (alpha_3 s) \<longleftrightarrow>
     (\<exists>a b c. m = [a, b, c] \<and> s = m @ r \<and> is_alpha a \<and> is_alpha b \<and> is_alpha c)"
  by (auto simp: alpha_3_def set_then_re char_class_iff)

lemma alpha_3_eval:
  "is_alpha a \<Longrightarrow> is_alpha b \<Longrightarrow> is_alpha c \<Longrightarrow> alpha_3 (a # b # c # r) = [([a, b, c], r)]"
  by (simp add: alpha_3_def then_re_def)

lemma day_month_eval1:
  "is_digit x \<Longrightarrow> is_alpha a \<Longrightarrow> is_alpha b \<Longrightarrow> is_alpha c \<Longrightarrow>
   day_month (x # CHR ''_'' # a # b # c # r) = [([x, CHR ''_'', a, b, c], r)]"
  by (simp add: day_month_def digit_1_2_def then_re_def alpha_3_eval)

lemma day_month_eval2:
  "is_digit x \<Longrightarrow> is_digit y \<Longrightarrow> is_alpha a \<Longrightarrow> is_alpha b \<Longrightarrow> is_alpha c \<Longrightarrow>
   day_month (x # y # CHR ''_'' # a # b # c # r) = [([x, y, CHR ''_'', a, b, c], r)]"
  by (simp add: day_month_def digit_1_2_def then_re_def alpha_3_eval digit_not_sep)

lemma day_month_iff:
  "(m, r) \<in> set (day_month s) \<longleftrightarrow>
     s = m @ r \<and> (\<exists>d a b c. m = d @ [CHR ''_'', a, b, c] \<and> is_alpha a \<and> is_alpha b \<and> is_alpha c \<and>
        ((\<exists>x. d = [x] \<and> is_digit x) \<or> (\<exists>x y. d = [x, y] \<and> is_digit x \<and> is_digit y)))"
  (is "?L \<longleftrightarrow> ?R")
proof
  assume ?L
  then show ?R
    unfolding day_month_def set_then_re
    by (auto simp: digit_1_2_iff alpha_3_iff char_class_iff)
next
  assume ?R
  then show ?L
    by (auto simp: day_month_eval1 day_month_eval2)
qed

lemma day_month_restart:
  "(m, r) \<in> set (day_month s) \<Longrightarrow> day_month (m @ r') = [(m, r')]"
  by (auto simp: day_month_iff day_month_eval1 day_month_eval2)


lemma date_range_re_parts:
  assumes "(t, r) \<in> set (date_range_re s)"
  obtains h1 h2 r1 where "t = h1 @ CHR ''-'' # h2" and "s = t @ r"
    and "(h1, r1) \<in> set (day_month s)" and "(h2, r) \<in> set (day_month (h2 @ r))"
proof -
  from assms obtain h1 r1 m' where h1: "(h1, r1) \<in> set (day_month s)"
    and m': "(m', r) \<in> set (then_re (char_class (\<lambda>c. c = CHR ''-'')) day_month r1)"
    and t: "t = h1 @ m'"
    unfolding date_range_re_def set_then_re by blast
  from m' obtain h2 r1' where m'_eq: "m' = CHR ''-'' # h2" and r1: "r1 = CHR ''-'' # r1'"
    and h2: "(h2, r) \<in> set (day_month r1')"
    unfolding set_then_re by (auto simp: char_class_iff)
  from h1 have s: "s = h1 @ r1" by (simp add: day_month_iff)
  from h2 have r1': "r1' = h2 @ r" by (simp add: day_month_iff)
  show thesis
    using that [of h1 h2 r1] h1 h2 by (simp add: t m'_eq s r1 r1')
qed

lemma date_range_re_restart:
  assumes "(t, r) \<in> set (date_range_re s)"
  shows "date_range_re (t @ r') = [(t, r')]"
proof -
  from assms obtain h1 h2 r1 where t: "t = h1 @ CHR ''-'' # h2"
    and h1: "(h1, r1) \<in> set (day_month s)" and h2: "(h2, r) \<in> set (day_month (h2 @ r))"
    by (rule date_range_re_parts)
  have 1: "day_month (h1 @ CHR ''-'' # h2 @ r') = [(h1, CHR ''-'' # h2 @ r')]"
    using h1 by (rule day_month_restart)
  have 2: "day_month (h2 @ r') = [(h2, r')]"
    using h2 by (rule day_month_restart)
  show ?thesis
    by (simp add: t date_range_re_def then_re_def 1 2)
qed

lemma re_match_Some:
  "re_match s = Some t \<Longrightarrow> \<exists>r. (t, r) \<in> set (date_range_re s)"
  by (auto simp: re_match_def split: list.splits)

lemma re_match_is_date_range: "re_match s = Some t \<Longrightarrow> is_date_range t"
  using date_range_re_restart [of t _ s "[]"]
  by (auto simp: is_date_range_def dest!: re_match_Some)

lemma re_search_is_date_range: "re_search s = Some t \<Longrightarrow> is_date_range t"
  by (induction s) (auto simp: re_match_is_date_range re_match_def split: option.splits)

lemma re_match_date_range: "is_date_range t \<Longrightarrow> re_match (t @ r) = Some t"
  unfolding is_date_range_def
  by (drule date_range_re_restart [where r' = r]) (simp add: re_match_def)

lemma re_match_not_digit:
  assumes "\<not> is_digit c"
  shows "re_match (c # s) = None"
proof (cases "date_range_re (c # s)")
  case Nil
  then show ?thesis by (simp add: re_match_def)
next
  case (Cons tr rest)
  then have "(fst tr, snd tr) \<in> set (date_range_re (c # s))" by simp
  then have False
    using assms by (elim date_range_re_parts) (auto simp: day_month_iff)
  then show ?thesis ..
qed

lemma re_search_skip: "list_all (\<lambda>c. \<not> is_digit c) p \<Longrightarrow> re_search (p @ s) = re_search s"
  by (induction p) (auto simp: re_match_not_digit)

lemma re_search_date_range: "is_date_range t \<Longrightarrow> re_search (t @ r) = Some t"
  using re_match_date_range [of t r]
  by (cases "t @ r") (auto simp: re_match_def)

lemma re_search_prefixed:
  "list_all (\<lambda>c. \<not> is_digit c) p \<Longrightarrow> is_date_range t \<Longrightarrow> re_search (p @ t @ r) = Some t"
  by (simp add: re_search_skip re_search_date_range)

lemma date_range_chars:
  "is_date_range t \<Longrightarrow> c \<in> set t \<Longrightarrow> is_digit c \<or> is_alpha c \<or> c = CHR ''_'' \<or> c = CHR ''-''"
  unfolding is_date_range_def
  by (erule date_range_re_parts) (auto simp: day_month_iff)

lemma clean_display:
  assumes "is_date_range t"
  shows "clean (replace (CHR ''_'') '' '' t) = t"
proof -
  have ok: "\<forall>c\<in>set t. c \<noteq> CHR ''('' \<and> c \<noteq> CHR '')'' \<and> c \<noteq> CHR '' ''"
    using date_range_chars [OF assms] by (auto simp: is_digit_def is_alpha_def)
  have "\<forall>c\<in>set s. c \<noteq> CHR ''('' \<and> c \<noteq> CHR '')'' \<and> c \<noteq> CHR '' '' \<Longrightarrow>
        clean (replace (CHR ''_'') '' '' s) = s" for s
    by (induction s) (auto simp: clean_def replace_def)
  then show ?thesis using ok by blast
qed

section \<open>Schema Indexer: properties\<close>

lemma set_map_filter_iff: "y \<in> set (List.map_filter f xs) \<longleftrightarrow> (\<exists>x\<in>set xs. f x = Some y)"
  by (induction xs) (auto split: option.splits)

lemma set_date_ranges:
  "set (date_ranges cols) =
     {t. \<exists>col\<in>set cols. (startswith col ''Reg'' \<or> startswith col ''Vac'') \<and> re_search col = Some t}"
  by (auto simp: date_ranges_def date_columns_def set_map_filter_iff)

lemma date_to_columns_eq:
  "date_to_columns drs t = (if t \<in> set drs then Some (''Reg'' @ t, ''Vac'' @ t) else None)"
  by (simp add: date_to_columns_def map_of_map_restrict restrict_map_def)

lemma date_ranges_is_date_range: "t \<in> set (date_ranges cols) \<Longrightarrow> is_date_range t"
  by (auto simp: set_date_ranges re_search_is_date_range)

lemma re_search_Reg: "is_date_range t \<Longrightarrow> re_search (''Reg'' @ t) = Some t"
  using re_search_prefixed [of "''Reg''" t "[]"] by (simp add: is_digit_def)

lemma re_search_Vac: "is_date_range t \<Longrightarrow> re_search (''Vac'' @ t) = Some t"
  using re_search_prefixed [of "''Vac''" t "[]"] by (simp add: is_digit_def)

lemma is_date_range_example: "is_date_range ''1_Jan-7_Jan''"
  by (simp add: is_date_range_def date_range_re_def day_month_def digit_1_2_def alpha_3_def
        then_re_def is_digit_def is_alpha_def)

lemma date_ranges_iff:
  "t \<in> set (date_ranges cols) \<longleftrightarrow>
     (\<exists>col\<in>set cols. (startswith col ''Reg'' \<or> startswith col ''Vac'') \<and> re_search col = Some t)"
  by (simp add: set_date_ranges)

lemma date_ranges_present:
  assumes t: "is_date_range t" and c: "''Reg'' @ t \<in> set cols \<or> ''Vac'' @ t \<in> set cols"
  shows "t \<in> set (date_ranges cols)"
proof -
  have "startswith (''Reg'' @ t) ''Reg''" "startswith (''Vac'' @ t) ''Vac''"
    by (simp_all add: startswith_def)
  with c re_search_Reg [OF t] re_search_Vac [OF t] show ?thesis
    unfolding date_ranges_iff by blast
qed

text \<open>
  C1, as the code has it. A date range \<open>t\<close> is discovered exactly when some column whose
  name starts with \<open>Reg\<close> or \<open>Vac\<close> has \<open>t\<close> as the leftmost match of the pattern. Every
  discovered \<open>t\<close> is a whole match of the pattern and is mapped to the pair of names
  \<open>Reg\<close>\<open>t\<close> and \<open>Vac\<close>\<open>t\<close>, built from \<open>t\<close> and not looked up in the header; nothing else
  is mapped. One column of the pair is enough: a well-formed \<open>t\<close> is discovered as soon as
  \<open>Reg\<close>\<open>t\<close> or \<open>Vac\<close>\<open>t\<close> is a column.
\<close>

theorem schema_indexer_buckets:
  "(t \<in> set (date_ranges cols) \<longleftrightarrow>
      (\<exists>col\<in>set cols. (startswith col ''Reg'' \<or> startswith col ''Vac'') \<and> re_search col = Some t))
   \<and> (t \<in> set (date_ranges cols) \<longrightarrow>
        is_date_range t \<and> date_to_columns (date_ranges cols) t = Some (''Reg'' @ t, ''Vac'' @ t))
   \<and> (t \<notin> set (date_ranges cols) \<longrightarrow> date_to_columns (date_ranges cols) t = None)
   \<and> (is_date_range t \<and> (''Reg'' @ t \<in> set cols \<or> ''Vac'' @ t \<in> set cols)
        \<longrightarrow> t \<in> set (date_ranges cols))"
proof (intro conjI impI)
  show "t \<in> set (date_ranges cols) \<longleftrightarrow>
      (\<exists>col\<in>set cols. (startswith col ''Reg'' \<or> startswith col ''Vac'') \<and> re_search col = Some t)"
    by (rule date_ranges_iff)
next
  assume "t \<in> set (date_ranges cols)"
  then show "is_date_range t"
    by (rule date_ranges_is_date_range)
next
  assume "t \<in> set (date_ranges cols)"
  then show "date_to_columns (date_ranges cols) t = Some (''Reg'' @ t, ''Vac'' @ t)"
    by (simp only: date_to_columns_eq if_True)
next
  assume "t \<notin> set (date_ranges cols)"
  then show "date_to_columns (date_ranges cols) t = None"
    by (simp only: date_to_columns_eq if_False)
next
  assume "is_date_range t \<and> (''Reg'' @ t \<in> set cols \<or> ''Vac'' @ t \<in> set cols)"
  then show "t \<in> set (date_ranges cols)"
    using date_ranges_present by blast
qed

theorem schema_indexer_buckets_witness:
  "is_date_range ''1_Jan-7_Jan''
   \<and> ''1_Jan-7_Jan'' \<in> set (date_ranges [''UC'', ''Reg1_Jan-7_Jan'', ''Vac1_Jan-7_Jan''])
   \<and> date_to_columns (date_ranges [''UC'', ''Reg1_Jan-7_Jan'', ''Vac1_Jan-7_Jan'']) ''1_Jan-7_Jan''
       = Some (''Reg1_Jan-7_Jan'', ''Vac1_Jan-7_Jan'')
   \<and> ''7_Jan-1_Jan'' \<notin> set (date_ranges [''UC'', ''Reg1_Jan-7_Jan'', ''Vac1_Jan-7_Jan''])"
proof -
  let ?cols = "[''UC'', ''Reg1_Jan-7_Jan'', ''Vac1_Jan-7_Jan'']"
  have reg: "''Reg'' @ ''1_Jan-7_Jan'' \<in> set ?cols" by simp
  have 1: "''1_Jan-7_Jan'' \<in> set (date_ranges ?cols)"
    using schema_indexer_buckets [of "''1_Jan-7_Jan''" ?cols] is_date_range_example reg by blast
  have 2: "date_to_columns (date_ranges ?cols) ''1_Jan-7_Jan'' = Some (''Reg1_Jan-7_Jan'', ''Vac1_Jan-7_Jan'')"
    using schema_indexer_buckets [of "''1_Jan-7_Jan''" ?cols] 1 by simp
  have s: "re_search ''Reg1_Jan-7_Jan'' = Some ''1_Jan-7_Jan''" "re_search ''Vac1_Jan-7_Jan'' = Some ''1_Jan-7_Jan''"
    using re_search_Reg [OF is_date_range_example] re_search_Vac [OF is_date_range_example] by simp_all
  have 3: "''7_Jan-1_Jan'' \<notin> set (date_ranges ?cols)"
    using schema_indexer_buckets [of "''7_Jan-1_Jan''" ?cols] s by (simp add: startswith_def)
  from is_date_range_example 1 2 3 show ?thesis by (intro conjI)
qed

text \<open>
  C1 as stated fails: a header with \<open>Reg1_Jan-7_Jan\<close> and no \<open>Vac1_Jan-7_Jan\<close> still yields
  the bucket \<open>1_Jan-7_Jan\<close>, whose vaccination column name is not in the table.
\<close>

theorem schema_indexer_counterexample:
  "''1_Jan-7_Jan'' \<in> set (date_ranges [''UC'', ''Reg1_Jan-7_Jan''])
   \<and> ''Vac1_Jan-7_Jan'' \<notin> set [''UC'', ''Reg1_Jan-7_Jan'']
   \<and> date_to_columns (date_ranges [''UC'', ''Reg1_Jan-7_Jan'']) ''1_Jan-7_Jan''
       = Some (''Reg1_Jan-7_Jan'', ''Vac1_Jan-7_Jan'')"
proof -
  have s: "re_search ''Reg1_Jan-7_Jan'' = Some ''1_Jan-7_Jan''"
    using re_search_Reg [OF is_date_range_example] by simp
  have 1: "''1_Jan-7_Jan'' \<in> set (date_ranges [''UC'', ''Reg1_Jan-7_Jan''])"
    unfolding set_date_ranges using s by (simp add: startswith_def)
  show ?thesis
    using 1 by (simp add: date_to_columns_eq)
qed

section \<open>Normalization and display names\<close>

lemma replace_append: "replace old new (a @ b) = replace old new a @ replace old new b"
  by (simp add: replace_def)

lemma clean_append: "clean (a @ b) = clean a @ clean b"
  by (simp add: clean_def replace_append)


lemma clean_display_name:
  assumes "is_date_range t"
  shows "clean (''Reg ('' @ replace (CHR ''_'') '' '' t @ '')'') = ''Reg_'' @ t"
    and "clean (''Vac ('' @ replace (CHR ''_'') '' '' t @ '')'') = ''Vac_'' @ t"
    and "clean (''Reg('' @ replace (CHR ''_'') '' '' t @ '')'') = ''Reg'' @ t"
    and "clean (''Vac('' @ replace (CHR ''_'') '' '' t @ '')'') = ''Vac'' @ t"
proof -
  have 1: "clean ''Reg ('' = ''Reg_''" "clean ''Vac ('' = ''Vac_''" "clean '')'' = ''''"
    "clean ''Reg('' = ''Reg''" "clean ''Vac('' = ''Vac''"
    by (simp_all add: clean_def replace_def)
  show "clean (''Reg ('' @ replace (CHR ''_'') '' '' t @ '')'') = ''Reg_'' @ t"
    and "clean (''Vac ('' @ replace (CHR ''_'') '' '' t @ '')'') = ''Vac_'' @ t"
    and "clean (''Reg('' @ replace (CHR ''_'') '' '' t @ '')'') = ''Reg'' @ t"
    and "clean (''Vac('' @ replace (CHR ''_'') '' '' t @ '')'') = ''Vac'' @ t"
    unfolding clean_append 1 clean_display [OF assms] by simp_all
qed

lemma re_search_cleaned_display:
  assumes "is_date_range t"
  shows "re_search (clean (''Reg ('' @ replace (CHR ''_'') '' '' t @ '')'')) = Some t"
    and "re_search (clean (''Vac ('' @ replace (CHR ''_'') '' '' t @ '')'')) = Some t"
  unfolding clean_display_name [OF assms]
  using re_search_prefixed [of "''Reg_''" t "[]"] re_search_prefixed [of "''Vac_''" t "[]"] assms
  by (simp_all add: is_digit_def)

lemma date_ranges_pair:
  assumes "re_search a = Some t" "re_search b = Some t" "startswith a ''Reg''" "startswith b ''Vac''"
  shows "date_ranges [a, b] = [t]"
  using assms by (simp add: date_ranges_def date_columns_def)

lemma date_ranges_cleaned_display:
  assumes "is_date_range t"
  shows "date_ranges (map clean [''Reg ('' @ replace (CHR ''_'') '' '' t @ '')'',
                                 ''Vac ('' @ replace (CHR ''_'') '' '' t @ '')'']) = [t]"
proof -
  have p: "startswith (clean (''Reg ('' @ replace (CHR ''_'') '' '' t @ '')'')) ''Reg''"
    "startswith (clean (''Vac ('' @ replace (CHR ''_'') '' '' t @ '')'')) ''Vac''"
    unfolding clean_display_name [OF assms] by (simp_all add: startswith_def)
  have "date_ranges [clean (''Reg ('' @ replace (CHR ''_'') '' '' t @ '')''),
                     clean (''Vac ('' @ replace (CHR ''_'') '' '' t @ '')'')] = [t]"
    using re_search_cleaned_display [OF assms] p by (rule date_ranges_pair)
  then show ?thesis
    by (simp only: list.map)
qed


lemma rename_dict_entries:
  assumes "set chosen \<subseteq> set drs"
  shows "\<exists>names. rename_dict (date_to_columns drs) acc chosen = Inr names
          \<and> (\<forall>dr\<in>set chosen.
                names (''Reg'' @ dr) = Some (''Reg ('' @ replace (CHR ''_'') '' '' dr @ '')'')
              \<and> names (''Vac'' @ dr) = Some (''Vac ('' @ replace (CHR ''_'') '' '' dr @ '')''))
          \<and> (\<forall>c. (\<forall>dr\<in>set chosen. c \<noteq> ''Reg'' @ dr \<and> c \<noteq> ''Vac'' @ dr) \<longrightarrow> names c = acc c)"
  using assms
proof (induction chosen arbitrary: acc)
  case Nil
  then show ?case by simp
next
  case (Cons d rest)
  let ?acc = "acc(''Reg'' @ d \<mapsto> ''Reg ('' @ replace (CHR ''_'') '' '' d @ '')'',
                  ''Vac'' @ d \<mapsto> ''Vac ('' @ replace (CHR ''_'') '' '' d @ '')'')"
  from Cons.prems have d: "d \<in> set drs" and rest: "set rest \<subseteq> set drs" by simp_all
  from Cons.IH [OF rest, of ?acc] obtain names where
    n: "rename_dict (date_to_columns drs) ?acc rest = Inr names"
    and e: "\<forall>dr\<in>set rest.
                names (''Reg'' @ dr) = Some (''Reg ('' @ replace (CHR ''_'') '' '' dr @ '')'')
              \<and> names (''Vac'' @ dr) = Some (''Vac ('' @ replace (CHR ''_'') '' '' dr @ '')'')"
    and o: "\<forall>c. (\<forall>dr\<in>set rest. c \<noteq> ''Reg'' @ dr \<and> c \<noteq> ''Vac'' @ dr) \<longrightarrow> names c = ?acc c"
    by blast
  have run: "rename_dict (date_to_columns drs) acc (d # rest) = Inr names"
    using d n by (simp add: date_to_columns_eq)
  have hd: "names (''Reg'' @ d) = Some (''Reg ('' @ replace (CHR ''_'') '' '' d @ '')'')
          \<and> names (''Vac'' @ d) = Some (''Vac ('' @ replace (CHR ''_'') '' '' d @ '')'')"
  proof (cases "d \<in> set rest")
    case True
    with e show ?thesis by blast
  next
    case False
    then have "\<forall>dr\<in>set rest. ''Reg'' @ d \<noteq> ''Reg'' @ dr \<and> ''Reg'' @ d \<noteq> ''Vac'' @ dr"
      "\<forall>dr\<in>set rest. ''Vac'' @ d \<noteq> ''Reg'' @ dr \<and> ''Vac'' @ d \<noteq> ''Vac'' @ dr"
      by auto
    with o have "names (''Reg'' @ d) = ?acc (''Reg'' @ d)" "names (''Vac'' @ d) = ?acc (''Vac'' @ d)"
      by blast+
    then show ?thesis by simp
  qed
  have others: "names c = acc c" if "\<forall>dr\<in>set (d # rest). c \<noteq> ''Reg'' @ dr \<and> c \<noteq> ''Vac'' @ dr" for c
  proof -
    from that have "names c = ?acc c" using o by simp
    with that show ?thesis by simp
  qed
  from run e hd others show ?case
    by (intro exI [of _ names]) simp
qed

text \<open>
  C7. For every selection of discovered date ranges the loop of lines 109-114 succeeds and
  maps the two columns of each selected range \<open>dr\<close> to \<open>Reg (\<close>\<open>dr\<close> with spaces\<open>)\<close> and
  \<open>Vac (\<close>\<open>dr\<close> with spaces\<open>)\<close>. Reading such a display name back the way the script
  reads a header, by cleaning it and searching for the pattern after the prefix, gives
  \<open>dr\<close> again, and the two display names together index exactly the bucket \<open>dr\<close>.
\<close>

theorem display_round_trip:
  assumes "set chosen \<subseteq> set (date_ranges cols)" and "dr \<in> set chosen"
  shows "\<exists>names reg_name vac_name.
           rename_dict (date_to_columns (date_ranges cols)) Map.empty chosen = Inr names
         \<and> names (''Reg'' @ dr) = Some reg_name
         \<and> names (''Vac'' @ dr) = Some vac_name
         \<and> reg_name = ''Reg ('' @ replace (CHR ''_'') '' '' dr @ '')''
         \<and> vac_name = ''Vac ('' @ replace (CHR ''_'') '' '' dr @ '')''
         \<and> re_search (clean reg_name) = Some dr
         \<and> re_search (clean vac_name) = Some dr
         \<and> date_ranges (map clean [reg_name, vac_name]) = [dr]"
proof -
  from assms have t: "is_date_range dr"
    by (auto intro: date_ranges_is_date_range)
  from rename_dict_entries [OF assms(1), of Map.empty] assms(2) obtain names where
    "rename_dict (date_to_columns (date_ranges cols)) Map.empty chosen = Inr names"
    "names (''Reg'' @ dr) = Some (''Reg ('' @ replace (CHR ''_'') '' '' dr @ '')'')"
    "names (''Vac'' @ dr) = Some (''Vac ('' @ replace (CHR ''_'') '' '' dr @ '')'')"
    by blast
  with re_search_cleaned_display [OF t] date_ranges_cleaned_display [OF t] show ?thesis
    by blast
qed

lemma example_columns:
  "columns (clean_columns example_df) =
     [''UC'', ''Epi_Mis_Facility_Name'', ''VaccinatorName'', ''Reg1_Jan-7_Jan'', ''Vac1_Jan-7_Jan'']"
  by (simp add: clean_columns_def example_df_def clean_def replace_def)


lemma example_date_ranges:
  "date_ranges (columns (clean_columns example_df)) = [''1_Jan-7_Jan'']"
  unfolding example_columns by code_simp

lemma example_spaced: "replace (CHR ''_'') '' '' ''1_Jan-7_Jan'' = ''1 Jan-7 Jan''"
  by (simp add: replace_def)

theorem display_round_trip_witness:
  "set [''1_Jan-7_Jan''] \<subseteq> set (date_ranges (columns (clean_columns example_df)))
   \<and> ''1_Jan-7_Jan'' \<in> set [''1_Jan-7_Jan'']
   \<and> re_search (clean ''Reg (1 Jan-7 Jan)'') = Some ''1_Jan-7_Jan''
   \<and> re_search (clean ''Vac (1 Jan-7 Jan)'') = Some ''1_Jan-7_Jan''
   \<and> date_ranges (map clean [''Reg (1 Jan-7 Jan)'', ''Vac (1 Jan-7 Jan)'']) = [''1_Jan-7_Jan'']"
proof -
  have 1: "set [''1_Jan-7_Jan''] \<subseteq> set (date_ranges (columns (clean_columns example_df)))"
    by (simp add: example_date_ranges)
  have 2: "''1_Jan-7_Jan'' \<in> set [''1_Jan-7_Jan'']"
    by simp
  from display_round_trip [OF 1 2] obtain reg_name vac_name where
    n: "reg_name = ''Reg ('' @ replace (CHR ''_'') '' '' ''1_Jan-7_Jan'' @ '')''"
       "vac_name = ''Vac ('' @ replace (CHR ''_'') '' '' ''1_Jan-7_Jan'' @ '')''"
    and r: "re_search (clean reg_name) = Some ''1_Jan-7_Jan''"
       "re_search (clean vac_name) = Some ''1_Jan-7_Jan''"
       "date_ranges (map clean [reg_name, vac_name]) = [''1_Jan-7_Jan'']"
    by blast
  have "reg_name = ''Reg (1 Jan-7 Jan)''" "vac_name = ''Vac (1 Jan-7 Jan)''"
    unfolding n example_spaced by simp_all
  with r 1 2 show ?thesis
    by blast
qed

section \<open>Aggregator: properties\<close>

lemma filter_eq_position: "p < n \<Longrightarrow> filter (\<lambda>j. j = p) [0..<n] = [p]"
  by (induction n) (auto simp: less_Suc_eq)

lemma getitem_once:
  assumes "p < length (columns df)"
    and "\<forall>j<length (columns df). columns df ! j = c \<longleftrightarrow> j = p"
  shows "getitem df c = Inr [(dtypes df p, map (\<lambda>r. cell_at r p) (rows df))]"
proof -
  have "filter (\<lambda>i. columns df ! i = c) [0..<length (columns df)]
        = filter (\<lambda>j. j = p) [0..<length (columns df)]"
    using assms(2) by (intro filter_cong) auto
  then show ?thesis
    using assms(1) by (simp add: getitem_def filter_eq_position)
qed


lemma sint_sum_list:
  "(\<Sum>x\<leftarrow>xs. \<bar>sint x\<bar>) \<le> 2 ^ 53 \<Longrightarrow> sint (sum_list xs :: int64) = (\<Sum>x\<leftarrow>xs. sint x)"
proof (induction xs)
  case Nil
  then show ?case by simp
next
  case (Cons x xs)
  have nonneg: "0 \<le> (\<Sum>y\<leftarrow>xs. \<bar>sint y\<bar>)"
    by (rule sum_list_nonneg) auto
  with Cons.prems have tl: "(\<Sum>y\<leftarrow>xs. \<bar>sint y\<bar>) \<le> 2 ^ 53" and hd: "\<bar>sint x\<bar> \<le> 2 ^ 53"
    by simp_all
  have ih: "sint (sum_list xs) = (\<Sum>y\<leftarrow>xs. sint y)"
    using Cons.IH tl by simp
  have "\<bar>\<Sum>y\<leftarrow>xs. sint y\<bar> \<le> (\<Sum>y\<leftarrow>xs. \<bar>sint y\<bar>)"
    using sum_list_abs [of "map sint xs"] by (simp add: comp_def)
  with Cons.prems have "\<bar>sint x + (\<Sum>y\<leftarrow>xs. sint y)\<bar> \<le> 2 ^ 53"
    by simp
  then have "- (2 ^ 63) \<le> sint x + (\<Sum>y\<leftarrow>xs. sint y)" "sint x + (\<Sum>y\<leftarrow>xs. sint y) < 2 ^ 63"
    by simp_all
  then have "signed_take_bit 63 (sint x + (\<Sum>y\<leftarrow>xs. sint y)) = sint x + (\<Sum>y\<leftarrow>xs. sint y)"
    by (simp add: signed_take_bit_int_eq_self)
  then show ?case
    by (simp add: sint_word_ariths ih)
qed

lemma value_of_series_sum:
  assumes "(\<Sum>x\<leftarrow>xs. case x of None \<Rightarrow> 0 | Some v \<Rightarrow> \<bar>sint v\<bar>) \<le> 2 ^ 53"
  shows "value_of (series_sum t xs) = Some (\<Sum>x\<leftarrow>xs. case x of None \<Rightarrow> 0 | Some v \<Rightarrow> sint v)"
proof (cases t)
  case Float64
  with assms show ?thesis by simp
next
  case Int64
  let ?ws = "map (\<lambda>x. case x of None \<Rightarrow> 0 | Some v \<Rightarrow> v) xs"
  have a: "(\<Sum>w\<leftarrow>?ws. \<bar>sint w\<bar>) = (\<Sum>x\<leftarrow>xs. case x of None \<Rightarrow> 0 | Some v \<Rightarrow> \<bar>sint v\<bar>)"
    by (induction xs) (auto split: option.splits)
  have b: "(\<Sum>w\<leftarrow>?ws. sint w) = (\<Sum>x\<leftarrow>xs. case x of None \<Rightarrow> 0 | Some v \<Rightarrow> sint v)"
    by (induction xs) (auto split: option.splits)
  from assms have c: "sint (sum_list ?ws) = (\<Sum>w\<leftarrow>?ws. sint w)"
    unfolding a [symmetric] by (rule sint_sum_list)
  have "value_of (series_sum Int64 xs) = Some (sint (sum_list ?ws))"
    by simp
  also have "\<dots> = Some (\<Sum>x\<leftarrow>xs. case x of None \<Rightarrow> 0 | Some v \<Rightarrow> sint v)"
    by (simp only: c b)
  finally show ?thesis
    by (simp only: Int64)
qed

lemma column_sum_once:
  assumes "p < length (columns df)"
    and "\<forall>j<length (columns df). columns df ! j = c \<longleftrightarrow> j = p"
    and "(\<Sum>r\<leftarrow>rows df. \<bar>count_of r p\<bar>) \<le> 2 ^ 53"
  shows "\<exists>t. column_sum df c = Inr [t] \<and> value_of t = Some (\<Sum>r\<leftarrow>rows df. count_of r p)"
proof -
  let ?xs = "map (\<lambda>r. cell_at r p) (rows df)"
  have a: "(\<Sum>x\<leftarrow>?xs. case x of None \<Rightarrow> 0 | Some v \<Rightarrow> \<bar>sint v\<bar>) = (\<Sum>r\<leftarrow>rows df. \<bar>count_of r p\<bar>)"
    by (induction "rows df") (auto simp: count_of_def comp_def split: option.splits intro: arg_cong)
  have b: "(\<Sum>x\<leftarrow>?xs. case x of None \<Rightarrow> 0 | Some v \<Rightarrow> sint v) = (\<Sum>r\<leftarrow>rows df. count_of r p)"
    by (simp add: count_of_def comp_def)
  have "value_of (series_sum (dtypes df p) ?xs) = Some (\<Sum>r\<leftarrow>rows df. count_of r p)"
    using value_of_series_sum [of ?xs "dtypes df p"] assms(3) unfolding a b by simp
  then show ?thesis
    by (simp add: column_sum_def getitem_once [OF assms(1,2)])
qed


lemma summary_totals:
  assumes "set chosen \<subseteq> set drs"
    and "\<forall>dr\<in>set chosen. reg dr < length (columns fdf)
           \<and> (\<forall>j<length (columns fdf). columns fdf ! j = ''Reg'' @ dr \<longleftrightarrow> j = reg dr)"
    and "\<forall>dr\<in>set chosen. vac dr < length (columns fdf)
           \<and> (\<forall>j<length (columns fdf). columns fdf ! j = ''Vac'' @ dr \<longleftrightarrow> j = vac dr)"
    and "\<forall>dr\<in>set chosen. (\<Sum>r\<leftarrow>rows fdf. \<bar>count_of r (reg dr)\<bar>) \<le> 2 ^ 53
           \<and> (\<Sum>r\<leftarrow>rows fdf. \<bar>count_of r (vac dr)\<bar>) \<le> 2 ^ 53"
  shows "\<exists>totals. summary fdf (date_to_columns drs) chosen = Inr totals
           \<and> map (\<lambda>(dr, reg_total, vac_total). (dr, value_of reg_total, value_of vac_total)) totals
             = map (\<lambda>dr. (dr, Some (\<Sum>r\<leftarrow>rows fdf. count_of r (reg dr)),
                               Some (\<Sum>r\<leftarrow>rows fdf. count_of r (vac dr)))) chosen"
  using assms
proof (induction chosen)
  case Nil
  then show ?case by simp
next
  case (Cons dr rest)
  from Cons.prems have d: "date_to_columns drs dr = Some (''Reg'' @ dr, ''Vac'' @ dr)"
    by (simp add: date_to_columns_eq)
  from Cons.prems obtain a where a: "column_sum fdf (''Reg'' @ dr) = Inr [a]"
    "value_of a = Some (\<Sum>r\<leftarrow>rows fdf. count_of r (reg dr))"
    using column_sum_once [of "reg dr" fdf "''Reg'' @ dr"] by auto
  from Cons.prems obtain b where b: "column_sum fdf (''Vac'' @ dr) = Inr [b]"
    "value_of b = Some (\<Sum>r\<leftarrow>rows fdf. count_of r (vac dr))"
    using column_sum_once [of "vac dr" fdf "''Vac'' @ dr"] by auto
  from Cons.IH Cons.prems obtain totals where
    t: "summary fdf (date_to_columns drs) rest = Inr totals"
       "map (\<lambda>(dr, reg_total, vac_total). (dr, value_of reg_total, value_of vac_total)) totals
             = map (\<lambda>dr. (dr, Some (\<Sum>r\<leftarrow>rows fdf. count_of r (reg dr)),
                               Some (\<Sum>r\<leftarrow>rows fdf. count_of r (vac dr)))) rest"
    by auto
  have "summary fdf (date_to_columns drs) (dr # rest) = Inr ((dr, a, b) # totals)"
    by (simp add: d a(1) b(1) t(1) del: append.simps)
  with a(2) b(2) t(2) show ?case
    by simp
qed

text \<open>
  C4, as the code has it. Take a table and an ordered selection of discovered date ranges
  such that, for each selected range, the name \<open>Reg\<close>\<open>dr\<close> is the name of exactly one
  column, at position \<open>reg dr\<close>, the name \<open>Vac\<close>\<open>dr\<close> of exactly one, at position
  \<open>vac dr\<close>, and the absolute values of the counts in each of the two columns add up to
  at most \<open>2^53\<close> over the rows of the table. Then the Aggregator succeeds and returns, for
  each selected range in the order of the selection, the sum of its registration column
  and the sum of its vaccination column over all rows of the table, a blank cell adding
  zero.
\<close>

theorem aggregator_sums:
  assumes "set chosen \<subseteq> set (date_ranges (columns fdf))"
    and "\<forall>dr\<in>set chosen. reg dr < length (columns fdf)
           \<and> (\<forall>j<length (columns fdf). columns fdf ! j = ''Reg'' @ dr \<longleftrightarrow> j = reg dr)"
    and "\<forall>dr\<in>set chosen. vac dr < length (columns fdf)
           \<and> (\<forall>j<length (columns fdf). columns fdf ! j = ''Vac'' @ dr \<longleftrightarrow> j = vac dr)"
    and "\<forall>dr\<in>set chosen. (\<Sum>r\<leftarrow>rows fdf. \<bar>count_of r (reg dr)\<bar>) \<le> 2 ^ 53
           \<and> (\<Sum>r\<leftarrow>rows fdf. \<bar>count_of r (vac dr)\<bar>) \<le> 2 ^ 53"
  shows "\<exists>totals. summary fdf (date_to_columns (date_ranges (columns fdf))) chosen = Inr totals
           \<and> map (\<lambda>(dr, reg_total, vac_total). (dr, value_of reg_total, value_of vac_total)) totals
             = map (\<lambda>dr. (dr, Some (\<Sum>r\<leftarrow>rows fdf. count_of r (reg dr)),
                               Some (\<Sum>r\<leftarrow>rows fdf. count_of r (vac dr)))) chosen"
  using assms by (rule summary_totals)

lemma reg_only_date_ranges: "date_ranges (columns reg_only_df) = [''1_Jan-7_Jan'']"
  unfolding reg_only_df_def by code_simp

lemma big_date_ranges: "date_ranges (columns big_df) = [''1_Jan-7_Jan'']"
  unfolding big_df_def by code_simp

text \<open>
  C4 as stated fails in two ways. \<open>1_Jan-7_Jan\<close> is a discovered date range of the table
  that has only its registration column, and the Aggregator ends in \<open>KeyError\<close> on the
  vaccination column instead of yielding sums. On the table whose two registration counts
  are \<open>2^62\<close> each the \<open>int64\<close> sum wraps around: the total stands for \<open>-2^63\<close> while the
  counts add up to \<open>2^63\<close>.
\<close>

theorem aggregator_counterexample:
  "''1_Jan-7_Jan'' \<in> set (date_ranges (columns reg_only_df))
   \<and> summary reg_only_df (date_to_columns (date_ranges (columns reg_only_df))) [''1_Jan-7_Jan'']
       = Inl (KeyError ''Vac1_Jan-7_Jan'')
   \<and> ''1_Jan-7_Jan'' \<in> set (date_ranges (columns big_df))
   \<and> summary big_df (date_to_columns (date_ranges (columns big_df))) [''1_Jan-7_Jan'']
       = Inr [(''1_Jan-7_Jan'', IntTotal 9223372036854775808, IntTotal 2)]
   \<and> value_of (IntTotal 9223372036854775808) = Some (- 9223372036854775808)
   \<and> count_of (rows big_df ! 0) 3 + count_of (rows big_df ! 1) 3 = 9223372036854775808"
proof -
  have 1: "column_sum reg_only_df ''Reg1_Jan-7_Jan'' = Inr [IntTotal 10]"
    by (simp add: column_sum_def getitem_def reg_only_df_def cell_at_def)
  have 2: "column_sum reg_only_df ''Vac1_Jan-7_Jan'' = Inl (KeyError ''Vac1_Jan-7_Jan'')"
    by (simp add: column_sum_def getitem_def reg_only_df_def)
  have 3: "column_sum big_df ''Reg1_Jan-7_Jan'' = Inr [IntTotal 9223372036854775808]"
    by (simp add: column_sum_def getitem_def big_df_def cell_at_def)
  have 4: "column_sum big_df ''Vac1_Jan-7_Jan'' = Inr [IntTotal 2]"
    by (simp add: column_sum_def getitem_def big_df_def cell_at_def)
  have 5: "value_of (IntTotal 9223372036854775808) = Some (- 9223372036854775808)"
    by simp
  have 6: "count_of (rows big_df ! 0) 3 + count_of (rows big_df ! 1) 3 = 9223372036854775808"
    by (simp add: count_of_def cell_at_def big_df_def)
  show ?thesis
    using 1 2 3 4 5 6 by (simp add: reg_only_date_ranges big_date_ranges date_to_columns_def)
qed

lemma example_positions:
  "\<forall>j<length (columns (clean_columns example_df)).
      columns (clean_columns example_df) ! j = ''Reg1_Jan-7_Jan'' \<longleftrightarrow> j = 3"
  "\<forall>j<length (columns (clean_columns example_df)).
      columns (clean_columns example_df) ! j = ''Vac1_Jan-7_Jan'' \<longleftrightarrow> j = 4"
  unfolding example_columns by (auto simp: nth_Cons' less_Suc_eq numeral_eq_Suc)

lemma example_counts:
  "map (\<lambda>r. count_of r 3) (rows example_df) = [10, 5, 0]"
  "map (\<lambda>r. count_of r 4) (rows example_df) = [8, 4, 1]"
  by (simp_all add: example_df_def count_of_def cell_at_def)

theorem aggregator_sums_witness:
  "set [''1_Jan-7_Jan''] \<subseteq> set (date_ranges (columns (clean_columns example_df)))
   \<and> columns (clean_columns example_df) ! 3 = ''Reg1_Jan-7_Jan''
   \<and> columns (clean_columns example_df) ! 4 = ''Vac1_Jan-7_Jan''
   \<and> (\<Sum>r\<leftarrow>rows (clean_columns example_df). \<bar>count_of r 3\<bar>) \<le> 2 ^ 53
   \<and> (\<Sum>r\<leftarrow>rows (clean_columns example_df). \<bar>count_of r 4\<bar>) \<le> 2 ^ 53
   \<and> (\<exists>totals. summary (clean_columns example_df)
                   (date_to_columns (date_ranges (columns (clean_columns example_df))))
                   [''1_Jan-7_Jan''] = Inr totals
          \<and> map (\<lambda>(dr, reg_total, vac_total). (dr, value_of reg_total, value_of vac_total)) totals
              = [(''1_Jan-7_Jan'', Some 15, Some 13)])"
proof -
  let ?df = "clean_columns example_df"
  have r: "rows ?df = rows example_df"
    by (simp add: clean_columns_def)
  have s: "(\<Sum>r\<leftarrow>rows ?df. count_of r 3) = 15" "(\<Sum>r\<leftarrow>rows ?df. count_of r 4) = 13"
    "(\<Sum>r\<leftarrow>rows ?df. \<bar>count_of r 3\<bar>) = 15" "(\<Sum>r\<leftarrow>rows ?df. \<bar>count_of r 4\<bar>) = 13"
    unfolding r using example_counts
    by (simp_all add: example_df_def count_of_def cell_at_def)
  have 1: "set [''1_Jan-7_Jan''] \<subseteq> set (date_ranges (columns ?df))"
    by (simp add: example_date_ranges)
  have 2: "\<forall>dr\<in>set [''1_Jan-7_Jan'']. (\<lambda>_. 3) dr < length (columns ?df)
           \<and> (\<forall>j<length (columns ?df). columns ?df ! j = ''Reg'' @ dr \<longleftrightarrow> j = (\<lambda>_. 3) dr)"
    using example_positions(1) by (simp add: example_columns)
  have 3: "\<forall>dr\<in>set [''1_Jan-7_Jan'']. (\<lambda>_. 4) dr < length (columns ?df)
           \<and> (\<forall>j<length (columns ?df). columns ?df ! j = ''Vac'' @ dr \<longleftrightarrow> j = (\<lambda>_. 4) dr)"
    using example_positions(2) by (simp add: example_columns)
  have 4: "\<forall>dr\<in>set [''1_Jan-7_Jan'']. (\<Sum>r\<leftarrow>rows ?df. \<bar>count_of r ((\<lambda>_. 3) dr)\<bar>) \<le> 2 ^ 53
           \<and> (\<Sum>r\<leftarrow>rows ?df. \<bar>count_of r ((\<lambda>_. 4) dr)\<bar>) \<le> 2 ^ 53"
    by (simp add: s)
  have 5: "\<exists>totals. summary ?df (date_to_columns (date_ranges (columns ?df))) [''1_Jan-7_Jan''] = Inr totals
          \<and> map (\<lambda>(dr, reg_total, vac_total). (dr, value_of reg_total, value_of vac_total)) totals
              = [(''1_Jan-7_Jan'', Some 15, Some 13)]"
    using aggregator_sums [OF 1 2 3 4] by (simp add: s)
  have 6: "columns ?df ! 3 = ''Reg1_Jan-7_Jan''" "columns ?df ! 4 = ''Vac1_Jan-7_Jan''"
    by (simp_all add: example_columns)
  have 7: "(\<Sum>r\<leftarrow>rows ?df. \<bar>count_of r 3\<bar>) \<le> 2 ^ 53" "(\<Sum>r\<leftarrow>rows ?df. \<bar>count_of r 4\<bar>) \<le> 2 ^ 53"
    by (simp_all add: s)
  from 1 6 7 5 show ?thesis
    by (intro conjI)
qed

section \<open>The run of the script: properties\<close>











text \<open>
  C8. When the file is missing, the Loader yields no table: the run shows one error whose
  text names \<open>progress_data.xlsx\<close> and stops. Any other exception of the read does the
  same with an error that names the file and carries the exception's text.
\<close>

theorem loader_failures:
  "load_data FileNotFoundError =
     Inl (Error (''File '' @ [CHR 0x27] @ ''progress_data.xlsx'' @ [CHR 0x27]
                   @ '' not found. Ensure it is in the script'' @ [CHR 0x27] @ ''s directory.''))
   \<and> app FileNotFoundError sel =
       ([Error (''File '' @ [CHR 0x27] @ ''progress_data.xlsx'' @ [CHR 0x27]
                   @ '' not found. Ensure it is in the script'' @ [CHR 0x27] @ ''s directory.'')], Stop)
   \<and> load_data FileNotFoundError \<noteq> Inr df
   \<and> load_data (Exception e) =
       Inl (Error (''Error loading '' @ [CHR 0x27] @ ''progress_data.xlsx'' @ [CHR 0x27] @ '': '' @ e))
   \<and> app (Exception e) sel =
       ([Error (''Error loading '' @ [CHR 0x27] @ ''progress_data.xlsx'' @ [CHR 0x27] @ '': '' @ e)], Stop)
   \<and> load_data (Exception e) \<noteq> Inr df"
  by (simp add: load_data_def app_def)

theorem loader_failures_witness:
  "app FileNotFoundError example_sel =
     ([Error ''File 'progress_data.xlsx' not found. Ensure it is in the script's directory.''], Stop)
   \<and> app (Exception ''Excel file format cannot be determined'') example_sel =
     ([Error ''Error loading 'progress_data.xlsx': Excel file format cannot be determined''], Stop)"
  using loader_failures [of example_sel example_df "''Excel file format cannot be determined''"]
  by simp

section \<open>Normalization: lookups by constructed names\<close>








end
